theory Spec2Isabelle
  imports Complex_Main "HOL-Library.AList" "HOL-Library.Multiset"
begin

section \<open>The Nomad exporter: data\<close>

text \<open>
  The model follows \<^verbatim>\<open>nomad_exporter.go\<close>. A \<^verbatim>\<open>float64\<close> is only stored and read
  back by the exporter, never computed with, and a JSON number is never NaN or infinite, so
  a metric value is a \<^typ>\<open>real\<close>.

  \<^verbatim>\<open>nomadHealth\<close> (lines 25 to 39) is the decoded payload. A Go map has one value per
  key and no iteration order of its own; a \<^verbatim>\<open>map[string]float64\<close> is an association
  list whose order is the order in which one \<^verbatim>\<open>range\<close> loop visits it, and the
  theorems hold for every such list.
\<close>

record nomadHealth =
  UpTimeSec :: real
  StatusCodeCount :: "(string \<times> real) list"
  TotalStatusCodeCount :: "(string \<times> real) list"
  TotalResponseTimeSec :: real
  AverageResponseTimeSec :: real

text \<open>
  A \<^verbatim>\<open>prometheus.Gauge\<close>: the options it was built from (\<^verbatim>\<open>GaugeOpts\<close>) and the
  value it holds. Every gauge of the program is built once by \<^verbatim>\<open>newGauge\<close> and held
  by exactly one variable or map entry, so a gauge is modelled by value.
\<close>

record gauge =
  Namespace :: string
  Name :: string
  Help :: string
  ConstLabels :: "(string \<times> string) list"
  val :: real

definition namespace :: string where
  "namespace = ''nomad''"

text \<open>\<^verbatim>\<open>newGauge\<close> (lines 52 to 61); a new gauge holds 0.\<close>

definition newGauge :: "string \<Rightarrow> string \<Rightarrow> (string \<times> string) list \<Rightarrow> gauge" where
  "newGauge metricName docString constLabels =
     \<lparr>Namespace = namespace, Name = metricName, Help = docString,
      ConstLabels = constLabels, val = 0\<rparr>"

text \<open>\<^verbatim>\<open>Gauge.Set\<close>: the value is replaced, the descriptor stays.\<close>

definition Set :: "gauge \<Rightarrow> real \<Rightarrow> gauge" where
  "Set g v = g\<lparr>val := v\<rparr>"

text \<open>
  The package-level variables (lines 63 to 73). The two maps from status code to gauge are
  association lists in insertion order.
\<close>

type_synonym gauges = "(string \<times> gauge) list"

record state =
  nomad_up :: gauge
  metric_uptime :: gauge
  metric_request_response_time_total :: gauge
  metric_request_response_time_avg :: gauge
  metric_request_status_count_current :: gauges
  metric_request_status_count_total :: gauges

text \<open>The variable initialisers, then \<^verbatim>\<open>init\<close> (lines 75 to 77).\<close>

definition init_state :: state where
  "init_state =
     \<lparr>nomad_up = Set (newGauge ''up'' ''Is Nomad up ?'' []) 0,
      metric_uptime = newGauge ''uptime'' ''Current Nomad uptime'' [],
      metric_request_response_time_total =
        newGauge ''request_response_time_total'' ''Total response time of Nomad requests'' [],
      metric_request_response_time_avg =
        newGauge ''request_response_time_avg'' ''Average response time of Nomad requests'' [],
      metric_request_status_count_current = [],
      metric_request_status_count_total = []\<rparr>"

section \<open>The scrape\<close>

text \<open>
  What \<^verbatim>\<open>e.client.Get(e.URI)\<close> returns: an error, or a response with its status code
  and body. The three \<^verbatim>\<open>errors.New\<close> of \<^verbatim>\<open>scrape\<close> are the three constructors of
  \<open>scrape_error\<close>, each with the value its message is formatted from.
\<close>

datatype get_result = GetErr string | Response int string

datatype scrape_error = Transport string | BadStatus int | Decode string

text \<open>The first loop of lines 165 to 167: every gauge of the map is set to 0.\<close>

definition reset_all :: "gauges \<Rightarrow> gauges" where
  "reset_all m = map (\<lambda>(statusCode, metric). (statusCode, Set metric 0)) m"

text \<open>
  The body of the loops of lines 168 to 173 and 176 to 181: the gauge of the status code is
  created when the map has none, then set. The lookup after the creation always finds a
  gauge; Go would panic on a missing one, the model leaves the map as it is.
\<close>

definition set_labeled ::
  "string \<Rightarrow> string \<Rightarrow> gauges \<Rightarrow> string \<times> real \<Rightarrow> gauges" where
  "set_labeled metricName docString m kv =
     (case kv of (statusCode, nbr) \<Rightarrow>
        let m1 = (if map_of m statusCode = None
                  then AList.update statusCode
                         (newGauge metricName docString [(''statusCode'', statusCode)]) m
                  else m)
        in (case map_of m1 statusCode of
              None \<Rightarrow> m1
            | Some metric \<Rightarrow> AList.update statusCode (Set metric nbr) m1))"

text \<open>Lines 163 to 173: the current counts, reset and then set.\<close>

definition set_current :: "(string \<times> real) list \<Rightarrow> gauges \<Rightarrow> gauges" where
  "set_current counts m =
     foldl (set_labeled ''request_count_current'' ''Number of request handled by Nomad'')
       (reset_all m) counts"

text \<open>Lines 175 to 181: the total counts, set with no reset.\<close>

definition set_total :: "(string \<times> real) list \<Rightarrow> gauges \<Rightarrow> gauges" where
  "set_total counts m =
     foldl (set_labeled ''request_count_total'' ''Number of request handled by Nomad'')
       m counts"

text \<open>Lines 158 to 181: what \<^verbatim>\<open>scrape\<close> writes once it has the decoded payload.\<close>

definition set_metrics :: "nomadHealth \<Rightarrow> state \<Rightarrow> state" where
  "set_metrics data s =
     s\<lparr>nomad_up := Set (nomad_up s) 1,
       metric_uptime := Set (metric_uptime s) (UpTimeSec data),
       metric_request_response_time_total :=
         Set (metric_request_response_time_total s) (TotalResponseTimeSec data),
       metric_request_response_time_avg :=
         Set (metric_request_response_time_avg s) (AverageResponseTimeSec data),
       metric_request_status_count_current :=
         set_current (StatusCodeCount data) (metric_request_status_count_current s),
       metric_request_status_count_total :=
         set_total (TotalStatusCodeCount data) (metric_request_status_count_total s)\<rparr>"

text \<open>
  \<^verbatim>\<open>scrape\<close> (lines 142 to 184). The JSON decoder is the standard library's; it is the
  parameter \<open>decode\<close>, from the body to the decoder's error or the payload. The result
  is the error, if any, and the state.
\<close>

definition scrape ::
  "(string \<Rightarrow> string + nomadHealth) \<Rightarrow> get_result \<Rightarrow> state \<Rightarrow> scrape_error option \<times> state" where
  "scrape decode resp s =
     (case resp of
        GetErr err \<Rightarrow> (Some (Transport err), s)
      | Response StatusCode Body \<Rightarrow>
          if \<not> (StatusCode \<ge> 200 \<and> StatusCode < 300) then (Some (BadStatus StatusCode), s)
          else (case decode Body of
                  Inl err \<Rightarrow> (Some (Decode err), s)
                | Inr data \<Rightarrow> (None, set_metrics data s)))"

text \<open>
  \<^verbatim>\<open>Collect\<close> (lines 118 to 140): the metrics sent on the channel, with the values
  they hold when \<^verbatim>\<open>Collect\<close> returns, and the state. The mutex makes the calls
  sequential, which the model is. The gauges of a map are sent in the order of the list; Go leaves that
  order open.
\<close>

definition Exporter_Collect ::
  "(string \<Rightarrow> string + nomadHealth) \<Rightarrow> get_result \<Rightarrow> state \<Rightarrow> gauge list \<times> state" where
  "Exporter_Collect decode resp s =
     (case scrape decode resp s of
        (Some err, s1) \<Rightarrow>
          (let s2 = s1\<lparr>nomad_up := Set (nomad_up s1) 0\<rparr> in ([nomad_up s2], s2))
      | (None, s1) \<Rightarrow>
          ([nomad_up s1, metric_uptime s1, metric_request_response_time_total s1,
            metric_request_response_time_avg s1]
           @ map snd (metric_request_status_count_current s1)
           @ map snd (metric_request_status_count_total s1), s1))"

text \<open>
  A run of the process: the package initialisation, then one \<^verbatim>\<open>Collect\<close> per poll,
  each with what the upstream answers and how its body decodes.
\<close>

type_synonym poll = "(string \<Rightarrow> string + nomadHealth) \<times> get_result"

definition collect_step :: "state \<Rightarrow> poll \<Rightarrow> state" where
  "collect_step s p = snd (Exporter_Collect (fst p) (snd p) s)"

definition run :: "poll list \<Rightarrow> state \<Rightarrow> state" where
  "run ps s = foldl collect_step s ps"

section \<open>Example payloads\<close>

text \<open>
  Inputs for the concrete instances below. \<open>payload_a\<close> is the payload of the
  specification's first scenario; \<open>payload_b\<close> is that of its second, a count of 12 for
  200 and no other field; \<open>payload_c\<close> and \<open>payload_d\<close> count the status code 404
  only, the first with a new total for 200, the second with no total for 200. \<open>example_decode\<close> is a decoder that knows four bodies and
  rejects every other.
\<close>

definition payload_a :: nomadHealth where
  "payload_a =
     \<lparr>UpTimeSec = 120.5, StatusCodeCount = [(''200'', 10), (''500'', 1)],
      TotalStatusCodeCount = [(''200'', 1000)],
      TotalResponseTimeSec = 50, AverageResponseTimeSec = 0.05\<rparr>"

definition payload_b :: nomadHealth where
  "payload_b =
     \<lparr>UpTimeSec = 0, StatusCodeCount = [(''200'', 12)], TotalStatusCodeCount = [],
      TotalResponseTimeSec = 0, AverageResponseTimeSec = 0\<rparr>"

definition payload_c :: nomadHealth where
  "payload_c =
     \<lparr>UpTimeSec = 130, StatusCodeCount = [(''404'', 3)],
      TotalStatusCodeCount = [(''200'', 1010), (''404'', 3)],
      TotalResponseTimeSec = 51, AverageResponseTimeSec = 0.05\<rparr>"

definition payload_d :: nomadHealth where
  "payload_d =
     \<lparr>UpTimeSec = 130, StatusCodeCount = [(''404'', 3)],
      TotalStatusCodeCount = [(''404'', 3)],
      TotalResponseTimeSec = 51, AverageResponseTimeSec = 0.05\<rparr>"

definition example_decode :: "string \<Rightarrow> string + nomadHealth" where
  "example_decode Body =
     (if Body = ''a'' then Inr payload_a
      else if Body = ''b'' then Inr payload_b
      else if Body = ''c'' then Inr payload_c
      else if Body = ''d'' then Inr payload_d
      else Inl ''invalid character'')"

section \<open>Lemmas about the model\<close>

subsection \<open>Gauges and the reset\<close>

lemma Set_Set: "Set (Set g a) b = Set g b"
  by (simp add: Set_def)

lemma val_Set: "val (Set g v) = v"
  by (simp add: Set_def)

lemma map_of_reset_all: "map_of (reset_all m) k = map_option (\<lambda>g. Set g 0) (map_of m k)"
  by (induction m) (auto simp: reset_all_def)

subsection \<open>One step of a loop over a payload map\<close>

text \<open>
  What a step and a whole loop do to the gauge of a status code \<open>k\<close>: the last value the
  loop visits for \<open>k\<close> is the one the gauge keeps, and a gauge is created only when the
  map had none.
\<close>

lemma map_of_set_labeled:
  "map_of (set_labeled n h m (k, v)) k' =
     (if k' = k
      then Some (Set (case map_of m k of None \<Rightarrow> newGauge n h [(''statusCode'', k)] | Some g \<Rightarrow> g) v)
      else map_of m k')"
  by (auto simp: set_labeled_def Let_def AList.update_conv' split: option.splits)

lemma map_of_foldl_set_labeled:
  "map_of (foldl (set_labeled n h) m c) k =
     (case map_of (rev c) k of
        None \<Rightarrow> map_of m k
      | Some v \<Rightarrow> Some (Set (case map_of m k of None \<Rightarrow> newGauge n h [(''statusCode'', k)] | Some g \<Rightarrow> g) v))"
proof (induction c rule: rev_induct)
  case Nil
  show ?case by simp
next
  case (snoc x c)
  obtain k' v' where x: "x = (k', v')" by (cases x)
  show ?case
    using snoc by (auto simp: x map_of_set_labeled Set_Set split: option.splits)
qed

lemma keys_set_labeled:
  "map fst (set_labeled n h m (k, v)) = (if k \<in> set (map fst m) then map fst m else map fst m @ [k])"
  by (auto simp: set_labeled_def Let_def AList.update_keys map_of_eq_None_iff AList.update_conv' split: option.splits)

text \<open>
  The step as a recursion on the list: the first entry of the status code is the one that is
  set, and a new gauge goes to the end.
\<close>

lemma set_labeled_Nil:
  "set_labeled n h [] (k, v) = [(k, Set (newGauge n h [(''statusCode'', k)]) v)]"
  by (simp add: set_labeled_def)

lemma set_labeled_Cons:
  "set_labeled n h ((k', g) # ps) (k, v) =
     (if k' = k then (k, Set g v) # ps else (k', g) # set_labeled n h ps (k, v))"
  by (auto simp: set_labeled_def Let_def AList.update_conv' split: option.splits)

lemma set_labeled_fresh:
  "k \<notin> fst ` set m \<Longrightarrow>
   set_labeled n h m (k, v) = m @ [(k, Set (newGauge n h [(''statusCode'', k)]) v)]"
  by (induction m) (auto simp: set_labeled_Nil set_labeled_Cons)

lemma set_labeled_append_other:
  "k \<in> fst ` set m \<Longrightarrow>
   set_labeled n h (m @ [(k', g)]) (k, v) = set_labeled n h m (k, v) @ [(k', g)]"
  by (induction m) (force simp: set_labeled_Cons)+

lemma set_labeled_append_same:
  "k \<notin> fst ` set m \<Longrightarrow> set_labeled n h (m @ [(k, g)]) (k, v) = m @ [(k, Set g v)]"
  by (induction m) (auto simp: set_labeled_Nil set_labeled_Cons)

lemma set_labeled_twice:
  "set_labeled n h (set_labeled n h m (k, w)) (k, v) = set_labeled n h m (k, v)"
  by (induction m) (auto simp: set_labeled_Nil set_labeled_Cons Set_Set)

lemma set_labeled_swap:
  "k \<in> fst ` set m \<Longrightarrow> k \<noteq> k' \<Longrightarrow>
   set_labeled n h (set_labeled n h m (k, w)) (k', v') =
   set_labeled n h (set_labeled n h m (k', v')) (k, w)"
  by (induction m) (force simp: set_labeled_Cons)+

lemma reset_all_set_labeled:
  "reset_all (set_labeled n h m (k, v)) =
     (if k \<in> fst ` set m then reset_all m
      else reset_all m @ [(k, Set (newGauge n h [(''statusCode'', k)]) 0)])"
  by (induction m) (force simp: set_labeled_Nil set_labeled_Cons reset_all_def Set_Set)+

lemma keys_set_labeled_set:
  "fst ` set (set_labeled n h m (k, v)) = insert k (fst ` set m)"
proof -
  have "set (map fst (set_labeled n h m (k, v))) = insert k (set (map fst m))"
    unfolding keys_set_labeled by auto
  then show ?thesis by simp
qed

lemma reset_all_append: "reset_all (a @ b) = reset_all a @ reset_all b"
  by (simp add: reset_all_def)

lemma reset_all_single: "reset_all [(k, g)] = [(k, Set g 0)]"
  by (simp add: reset_all_def)

lemma keys_reset_all: "fst ` set (reset_all m) = fst ` set m"
  by (induction m) (auto simp: reset_all_def)

lemma keys_foldl_set_labeled:
  "fst ` set (foldl (set_labeled n h) m c) = fst ` set m \<union> fst ` set c"
proof (induction c arbitrary: m)
  case Nil
  show ?case by simp
next
  case (Cons x c)
  obtain k v where x: "x = (k, v)" by (cases x)
  show ?case by (simp add: x Cons keys_set_labeled_set)
qed

lemma foldl_set_labeled_append_other:
  "fst ` set c \<subseteq> fst ` set m \<Longrightarrow>
   foldl (set_labeled n h) (m @ [(k, g)]) c = foldl (set_labeled n h) m c @ [(k, g)]"
proof (induction c arbitrary: m)
  case Nil
  show ?case by simp
next
  case (Cons x c)
  obtain k' v' where x: "x = (k', v')" by (cases x)
  from Cons.prems have k': "k' \<in> fst ` set m" by (simp add: x)
  from Cons.prems have "fst ` set c \<subseteq> fst ` set (set_labeled n h m (k', v'))"
    by (auto simp: x keys_set_labeled_set)
  then show ?case by (simp add: x set_labeled_append_other [OF k'] Cons.IH)
qed

subsection \<open>Running a loop twice\<close>

lemma foldl_set_labeled_absorb:
  "k \<in> fst ` set m \<Longrightarrow>
   set_labeled n h (foldl (set_labeled n h) (set_labeled n h m (k, w)) c) (k, v) =
   set_labeled n h (foldl (set_labeled n h) m c) (k, v)"
proof (induction c arbitrary: m)
  case Nil
  show ?case by (simp add: set_labeled_twice)
next
  case (Cons x c)
  obtain k' v' where x: "x = (k', v')" by (cases x)
  show ?case
  proof (cases "k' = k")
    case True
    then show ?thesis by (simp add: x set_labeled_twice)
  next
    case False
    have "k \<in> fst ` set (set_labeled n h m (k', v'))"
      using Cons.prems by (simp add: keys_set_labeled_set)
    then show ?thesis
      using False Cons.prems by (simp add: x set_labeled_swap [of k m k'] Cons.IH)
  qed
qed

lemma set_total_idem: "set_total c (set_total c m) = set_total c m"
proof (induction c arbitrary: m rule: rev_induct)
  case Nil
  show ?case by (simp add: set_total_def)
next
  case (snoc x c)
  obtain k v where x: "x = (k, v)" by (cases x)
  let ?n = "''request_count_total''" and ?h = "''Number of request handled by Nomad''"
  let ?y = "foldl (set_labeled ?n ?h) m c"
  have IH: "foldl (set_labeled ?n ?h) ?y c = ?y"
    using snoc.IH [of m] by (simp add: set_total_def)
  show ?case
  proof (cases "k \<in> fst ` set ?y")
    case True
    then show ?thesis
      by (simp add: set_total_def x foldl_set_labeled_absorb IH)
  next
    case False
    have kc: "fst ` set c \<subseteq> fst ` set ?y" by (simp add: keys_foldl_set_labeled)
    show ?thesis
      using False
      by (simp add: set_total_def x set_labeled_fresh foldl_set_labeled_append_other [OF kc] IH
          set_labeled_append_same Set_Set)
  qed
qed

lemma set_current_idem: "set_current c (set_current c m) = set_current c m"
proof (induction c arbitrary: m rule: rev_induct)
  case Nil
  show ?case by (simp add: set_current_def reset_all_def Set_Set case_prod_beta)
next
  case (snoc x c)
  obtain k v where x: "x = (k, v)" by (cases x)
  let ?n = "''request_count_current''" and ?h = "''Number of request handled by Nomad''"
  let ?y = "foldl (set_labeled ?n ?h) (reset_all m) c"
  have IH: "foldl (set_labeled ?n ?h) (reset_all ?y) c = ?y"
    using snoc.IH [of m] by (simp add: set_current_def)
  show ?case
  proof (cases "k \<in> fst ` set ?y")
    case True
    then show ?thesis
      by (simp add: set_current_def x reset_all_set_labeled IH)
  next
    case False
    have kc: "fst ` set c \<subseteq> fst ` set (reset_all ?y)"
      by (simp add: keys_foldl_set_labeled keys_reset_all)
    have kr: "k \<notin> fst ` set (reset_all ?y)"
      using False by (simp add: keys_reset_all)
    show ?thesis
      using False
      by (simp add: set_current_def x set_labeled_fresh reset_all_append reset_all_single
          foldl_set_labeled_append_other [OF kc] IH set_labeled_append_same Set_Set)
  qed
qed

subsection \<open>The scrape and \<^verbatim>\<open>Collect\<close>\<close>

lemmas example_defs =
  example_decode_def payload_a_def payload_b_def payload_c_def payload_d_def

lemmas model_defs =
  scrape_def Exporter_Collect_def set_metrics_def set_current_def set_total_def
  set_labeled_def reset_all_def Set_def newGauge_def namespace_def init_state_def
  run_def collect_step_def

lemma scrape_NoneD:
  assumes "scrape decode resp s = (None, s')"
  obtains code body d where "resp = Response code body" "200 \<le> code" "code < 300"
    "decode body = Inr d" "s' = set_metrics d s"
  using assms
  by (auto simp: scrape_def split: get_result.splits if_splits sum.splits)

lemma scrape_error_state: "fst (scrape decode resp s) \<noteq> None \<Longrightarrow> snd (scrape decode resp s) = s"
  by (auto simp: scrape_def split: get_result.splits if_splits sum.splits)

lemma scrape_ok_state:
  "fst (scrape decode resp s) = None \<Longrightarrow> \<exists>d. snd (scrape decode resp s) = set_metrics d s"
  by (auto simp: scrape_def split: get_result.splits if_splits sum.splits)

lemma map_of_set_current:
  "map_of (set_current c m) k =
     (case map_of (rev c) k of
        None \<Rightarrow> map_option (\<lambda>g. Set g 0) (map_of m k)
      | Some v \<Rightarrow>
          Some (Set (case map_of m k of
                       None \<Rightarrow> newGauge ''request_count_current''
                                 ''Number of request handled by Nomad'' [(''statusCode'', k)]
                     | Some g \<Rightarrow> g) v))"
  by (auto simp: set_current_def map_of_foldl_set_labeled map_of_reset_all Set_Set
      split: option.splits)

lemma map_of_set_total:
  "map_of (set_total c m) k =
     (case map_of (rev c) k of
        None \<Rightarrow> map_of m k
      | Some v \<Rightarrow>
          Some (Set (case map_of m k of
                       None \<Rightarrow> newGauge ''request_count_total''
                                 ''Number of request handled by Nomad'' [(''statusCode'', k)]
                     | Some g \<Rightarrow> g) v))"
  by (simp add: set_total_def map_of_foldl_set_labeled)

lemma map_of_rev_None: "map_of (rev c) k = None \<longleftrightarrow> k \<notin> fst ` set c"
  by (simp add: map_of_eq_None_iff)

lemma keys_set_current: "fst ` set (set_current c m) = fst ` set m \<union> fst ` set c"
  by (simp add: set_current_def keys_foldl_set_labeled keys_reset_all)

lemma keys_set_total: "fst ` set (set_total c m) = fst ` set m \<union> fst ` set c"
  by (simp add: set_total_def keys_foldl_set_labeled)

lemma Collect_error:
  "fst (scrape decode resp s) \<noteq> None \<Longrightarrow>
   Exporter_Collect decode resp s = ([Set (nomad_up s) 0], s\<lparr>nomad_up := Set (nomad_up s) 0\<rparr>)"
  using scrape_error_state [of decode resp s]
  by (cases "scrape decode resp s") (auto simp: Exporter_Collect_def)

lemma Collect_ok_state:
  "fst (scrape decode resp s) = None \<Longrightarrow>
   snd (Exporter_Collect decode resp s) = snd (scrape decode resp s)"
  by (cases "scrape decode resp s") (auto simp: Exporter_Collect_def)

lemma Collect_ok_emitted:
  "fst (scrape decode resp s) = None \<Longrightarrow>
   fst (Exporter_Collect decode resp s) =
     (let s' = snd (scrape decode resp s) in
      [nomad_up s', metric_uptime s', metric_request_response_time_total s',
       metric_request_response_time_avg s']
      @ map snd (metric_request_status_count_current s')
      @ map snd (metric_request_status_count_total s'))"
  by (cases "scrape decode resp s") (auto simp: Exporter_Collect_def)

lemma scrape_ok_up: "fst (scrape decode resp s) = None \<Longrightarrow> val (nomad_up (snd (scrape decode resp s))) = 1"
  using scrape_ok_state [of decode resp s] by (auto simp: set_metrics_def val_Set)

lemma Collect_up:
  "val (nomad_up (snd (Exporter_Collect decode resp s))) =
     (if fst (scrape decode resp s) = None then 1 else 0)"
  by (simp add: Collect_error Collect_ok_state scrape_ok_up val_Set)

lemma run_Nil: "run [] s = s"
  by (simp add: run_def)

lemma run_snoc: "run (ps @ [(decode, resp)]) s = snd (Exporter_Collect decode resp (run ps s))"
  by (simp add: run_def collect_step_def)

subsection \<open>Status codes absent from a payload\<close>

lemma current_absent_zero:
  assumes "k \<in> fst ` set m" and "k \<notin> fst ` set c"
  shows "map_option val (map_of (set_current c m) k) = Some 0"
proof -
  from assms(1) have "map_of m k \<noteq> None"
    by (simp add: map_of_eq_None_iff)
  then obtain g where "map_of m k = Some g" by blast
  moreover from assms(2) have "map_of (rev c) k = None"
    by (simp add: map_of_rev_None)
  ultimately show ?thesis
    by (simp add: map_of_set_current val_Set)
qed

lemma total_absent_kept:
  assumes "k \<notin> fst ` set c"
  shows "map_of (set_total c m) k = map_of m k"
proof -
  from assms have "map_of (rev c) k = None"
    by (simp add: map_of_rev_None)
  then show ?thesis
    by (simp add: map_of_set_total)
qed

lemma keys_Collect_current:
  "fst ` set (metric_request_status_count_current s)
   \<subseteq> fst ` set (metric_request_status_count_current (snd (Exporter_Collect decode resp s)))"
proof (cases "fst (scrape decode resp s) = None")
  case True
  from scrape_ok_state [OF True]
  obtain d where "snd (scrape decode resp s) = set_metrics d s" ..
  with True show ?thesis
    by (simp add: Collect_ok_state set_metrics_def keys_set_current)
next
  case False
  then show ?thesis by (simp add: Collect_error)
qed

lemma keys_Collect_total:
  "fst ` set (metric_request_status_count_total s)
   \<subseteq> fst ` set (metric_request_status_count_total (snd (Exporter_Collect decode resp s)))"
proof (cases "fst (scrape decode resp s) = None")
  case True
  from scrape_ok_state [OF True]
  obtain d where "snd (scrape decode resp s) = set_metrics d s" ..
  with True show ?thesis
    by (simp add: Collect_ok_state set_metrics_def keys_set_total)
next
  case False
  then show ?thesis by (simp add: Collect_error)
qed

lemma keys_run:
  "fst ` set (metric_request_status_count_current s)
     \<subseteq> fst ` set (metric_request_status_count_current (run ps s))
   \<and> fst ` set (metric_request_status_count_total s)
     \<subseteq> fst ` set (metric_request_status_count_total (run ps s))"
proof (induction ps rule: rev_induct)
  case Nil
  show ?case by (simp add: run_Nil)
next
  case (snoc p ps)
  obtain decode resp where p: "p = (decode, resp)" by (cases p)
  from snoc have c: "fst ` set (metric_request_status_count_current s)
      \<subseteq> fst ` set (metric_request_status_count_current (run ps s))"
    and t: "fst ` set (metric_request_status_count_total s)
      \<subseteq> fst ` set (metric_request_status_count_total (run ps s))"
    by simp_all
  show ?case
    unfolding p run_snoc
    by (rule conjI)
      (rule order_trans [OF c keys_Collect_current], rule order_trans [OF t keys_Collect_total])
qed

subsection \<open>Descriptors of the labeled gauges\<close>

lemma Set_fields:
  "Namespace (Set g v) = Namespace g" "Name (Set g v) = Name g" "Help (Set g v) = Help g"
  "ConstLabels (Set g v) = ConstLabels g"
  by (simp_all add: Set_def)

lemma newGauge_fields:
  "Namespace (newGauge n h l) = ''nomad''" "Name (newGauge n h l) = n"
  "Help (newGauge n h l) = h" "ConstLabels (newGauge n h l) = l" "val (newGauge n h l) = 0"
  by (simp_all add: newGauge_def namespace_def)

lemma desc_foldl_set_labeled:
  assumes "\<And>k g. map_of m k = Some g \<Longrightarrow>
      Namespace g = ''nomad'' \<and> Name g = n \<and> Help g = h \<and> ConstLabels g = [(''statusCode'', k)]"
    and "map_of (foldl (set_labeled n h) m c) k = Some g"
  shows "Namespace g = ''nomad'' \<and> Name g = n \<and> Help g = h
    \<and> ConstLabels g = [(''statusCode'', k)]"
proof (cases "map_of (rev c) k")
  case None
  with assms(2) have "map_of m k = Some g"
    by (simp add: map_of_foldl_set_labeled)
  then show ?thesis by (rule assms(1))
next
  case (Some v)
  show ?thesis
  proof (cases "map_of m k")
    case None
    with Some assms(2) have "g = Set (newGauge n h [(''statusCode'', k)]) v"
      by (simp add: map_of_foldl_set_labeled)
    then show ?thesis by (simp add: Set_fields newGauge_fields)
  next
    case (Some g0)
    with \<open>map_of (rev c) k = Some v\<close> assms(2) have "g = Set g0 v"
      by (simp add: map_of_foldl_set_labeled)
    with assms(1) [OF Some] show ?thesis by (simp add: Set_fields)
  qed
qed

lemma desc_reset_all:
  assumes "\<And>k g. map_of m k = Some g \<Longrightarrow>
      Namespace g = ''nomad'' \<and> Name g = n \<and> Help g = h \<and> ConstLabels g = [(''statusCode'', k)]"
    and "map_of (reset_all m) k = Some g"
  shows "Namespace g = ''nomad'' \<and> Name g = n \<and> Help g = h
    \<and> ConstLabels g = [(''statusCode'', k)]"
proof -
  from assms(2) obtain g0 where g0: "map_of m k = Some g0" and g: "g = Set g0 0"
    by (auto simp: map_of_reset_all)
  from assms(1) [OF g0] show ?thesis by (simp add: g Set_fields)
qed

lemma desc_set_metrics:
  assumes c: "\<And>k g. map_of (metric_request_status_count_current s) k = Some g \<Longrightarrow>
      Namespace g = ''nomad'' \<and> Name g = ''request_count_current''
      \<and> Help g = ''Number of request handled by Nomad'' \<and> ConstLabels g = [(''statusCode'', k)]"
    and t: "\<And>k g. map_of (metric_request_status_count_total s) k = Some g \<Longrightarrow>
      Namespace g = ''nomad'' \<and> Name g = ''request_count_total''
      \<and> Help g = ''Number of request handled by Nomad'' \<and> ConstLabels g = [(''statusCode'', k)]"
  shows "(map_of (metric_request_status_count_current (set_metrics d s)) k = Some g \<longrightarrow>
      Namespace g = ''nomad'' \<and> Name g = ''request_count_current''
      \<and> Help g = ''Number of request handled by Nomad'' \<and> ConstLabels g = [(''statusCode'', k)])
    \<and> (map_of (metric_request_status_count_total (set_metrics d s)) k = Some g \<longrightarrow>
      Namespace g = ''nomad'' \<and> Name g = ''request_count_total''
      \<and> Help g = ''Number of request handled by Nomad'' \<and> ConstLabels g = [(''statusCode'', k)])"
proof (rule conjI; rule impI)
  assume "map_of (metric_request_status_count_current (set_metrics d s)) k = Some g"
  then have m: "map_of (foldl (set_labeled ''request_count_current''
        ''Number of request handled by Nomad'')
        (reset_all (metric_request_status_count_current s)) (StatusCodeCount d)) k = Some g"
    by (simp add: set_metrics_def set_current_def)
  have r: "\<And>k g. map_of (reset_all (metric_request_status_count_current s)) k = Some g \<Longrightarrow>
      Namespace g = ''nomad'' \<and> Name g = ''request_count_current''
      \<and> Help g = ''Number of request handled by Nomad'' \<and> ConstLabels g = [(''statusCode'', k)]"
    by (erule desc_reset_all [rotated]) (rule c)
  show "Namespace g = ''nomad'' \<and> Name g = ''request_count_current''
      \<and> Help g = ''Number of request handled by Nomad'' \<and> ConstLabels g = [(''statusCode'', k)]"
    by (rule desc_foldl_set_labeled [OF _ m]) (rule r)
next
  assume "map_of (metric_request_status_count_total (set_metrics d s)) k = Some g"
  then have "map_of (foldl (set_labeled ''request_count_total''
        ''Number of request handled by Nomad'')
        (metric_request_status_count_total s) (TotalStatusCodeCount d)) k = Some g"
    by (simp add: set_metrics_def set_total_def)
  then show "Namespace g = ''nomad'' \<and> Name g = ''request_count_total''
      \<and> Help g = ''Number of request handled by Nomad'' \<and> ConstLabels g = [(''statusCode'', k)]"
    by (rule desc_foldl_set_labeled [rotated]) (rule t)
qed

lemma desc_run:
  "(\<forall>k g. map_of (metric_request_status_count_current (run ps init_state)) k = Some g \<longrightarrow>
      Namespace g = ''nomad'' \<and> Name g = ''request_count_current''
      \<and> Help g = ''Number of request handled by Nomad'' \<and> ConstLabels g = [(''statusCode'', k)])
   \<and> (\<forall>k g. map_of (metric_request_status_count_total (run ps init_state)) k = Some g \<longrightarrow>
      Namespace g = ''nomad'' \<and> Name g = ''request_count_total''
      \<and> Help g = ''Number of request handled by Nomad'' \<and> ConstLabels g = [(''statusCode'', k)])"
proof (induction ps rule: rev_induct)
  case Nil
  show ?case by (simp add: run_Nil init_state_def)
next
  case (snoc p ps)
  obtain decode resp where p: "p = (decode, resp)" by (cases p)
  let ?s = "run ps init_state"
  show ?case
  proof (cases "fst (scrape decode resp ?s) = None")
    case True
    from scrape_ok_state [OF True]
    obtain d where d: "snd (scrape decode resp ?s) = set_metrics d ?s" ..
    have "run (ps @ [p]) init_state = set_metrics d ?s"
      by (simp add: p run_snoc Collect_ok_state [OF True] d)
    moreover from snoc have c: "\<And>k g. map_of (metric_request_status_count_current ?s) k = Some g \<Longrightarrow>
      Namespace g = ''nomad'' \<and> Name g = ''request_count_current''
      \<and> Help g = ''Number of request handled by Nomad'' \<and> ConstLabels g = [(''statusCode'', k)]"
      by simp
    moreover from snoc have t: "\<And>k g. map_of (metric_request_status_count_total ?s) k = Some g \<Longrightarrow>
      Namespace g = ''nomad'' \<and> Name g = ''request_count_total''
      \<and> Help g = ''Number of request handled by Nomad'' \<and> ConstLabels g = [(''statusCode'', k)]"
      by simp
    ultimately show ?thesis
      using desc_set_metrics [OF c t, where d = d] by simp
  next
    case False
    with snoc show ?thesis
      by (simp add: p run_snoc Collect_error)
  qed
qed

subsection \<open>The order of a \<^verbatim>\<open>range\<close> loop\<close>

text \<open>
  Go does not fix the order in which \<^verbatim>\<open>range\<close> visits a map. Two lists with the same
  entries and one entry per key are two visits of the same Go map: the gauges they produce
  are the same, and a scrape of a payload that was just scraped changes nothing, in whatever
  order its maps are visited.
\<close>

lemma range_order_irrelevant:
  assumes "distinct (map fst c)" and "distinct (map fst c')" and "set c = set c'"
  shows "map_of (foldl (set_labeled n h) m c) = map_of (foldl (set_labeled n h) m c')"
proof -
  have d: "distinct (map fst (rev c))"
    using assms(1) by (simp only: rev_map [symmetric] distinct_rev)
  have d': "distinct (map fst (rev c'))"
    using assms(2) by (simp only: rev_map [symmetric] distinct_rev)
  have "set (rev c) = set (rev c')"
    using assms(3) by simp
  then have "map_of (rev c) = map_of (rev c')"
    by (simp only: map_of_inject_set [OF d d'])
  then show ?thesis
    by (simp add: fun_eq_iff map_of_foldl_set_labeled)
qed

lemma foldl_set_labeled_permuted:
  assumes "distinct (map fst c)" and "distinct (map fst c')" and "set c = set c'"
    and "fst ` set c \<subseteq> fst ` set m"
  shows "foldl (set_labeled n h) m c = foldl (set_labeled n h) m c'"
proof -
  have "distinct c" and "distinct c'"
    using assms(1,2) by (simp_all add: distinct_map)
  with assms(3) have ms: "mset c = mset c'"
    by (simp add: set_eq_iff_mset_eq_distinct)
  have "fold (\<lambda>x z. set_labeled n h z x) c m = fold (\<lambda>x z. set_labeled n h z x) c' m"
  proof (rule fold_permuted_eq [where P = "\<lambda>z::gauges. fst ` set c \<subseteq> fst ` set z", OF ms assms(4)])
    fix x :: "string \<times> real" and z :: gauges
    assume "x \<in> set c" and z: "fst ` set c \<subseteq> fst ` set z"
    obtain k v where xk: "x = (k, v)" by (cases x)
    from z show "fst ` set c \<subseteq> fst ` set (set_labeled n h z x)"
      unfolding xk keys_set_labeled_set by (rule subset_insertI2)
  next
    fix x y :: "string \<times> real" and z :: gauges
    assume x: "x \<in> set c" and y: "y \<in> set c" and z: "fst ` set c \<subseteq> fst ` set z"
    obtain k v where xk: "x = (k, v)" by (cases x)
    obtain k' v' where yk: "y = (k', v')" by (cases y)
    show "set_labeled n h (set_labeled n h z y) x = set_labeled n h (set_labeled n h z x) y"
    proof (cases "k = k'")
      case True
      with x y assms(1) have "v = v'"
        by (simp add: xk yk eq_key_imp_eq_value)
      with True show ?thesis by (simp add: xk yk)
    next
      case False
      from y z have "k' \<in> fst ` set z" by (force simp: yk)
      with False show ?thesis
        by (simp add: xk yk set_labeled_swap [of k' z k])
    qed
  qed
  then show ?thesis
    by (simp add: foldl_conv_fold)
qed

lemma set_metrics_same_payload:
  assumes "UpTimeSec d' = UpTimeSec d" and "TotalResponseTimeSec d' = TotalResponseTimeSec d"
    and "AverageResponseTimeSec d' = AverageResponseTimeSec d"
    and "distinct (map fst (StatusCodeCount d))" and "distinct (map fst (StatusCodeCount d'))"
    and "set (StatusCodeCount d') = set (StatusCodeCount d)"
    and "distinct (map fst (TotalStatusCodeCount d))"
    and "distinct (map fst (TotalStatusCodeCount d'))"
    and "set (TotalStatusCodeCount d') = set (TotalStatusCodeCount d)"
  shows "set_metrics d' (set_metrics d s) = set_metrics d s"
proof -
  let ?c = "StatusCodeCount d" and ?c' = "StatusCodeCount d'"
  let ?t = "TotalStatusCodeCount d" and ?t' = "TotalStatusCodeCount d'"
  let ?mc = "metric_request_status_count_current s"
  let ?mt = "metric_request_status_count_total s"
  have "fst ` set ?c' \<subseteq> fst ` set (reset_all (set_current ?c ?mc))"
    using assms(6) by (simp add: keys_reset_all keys_set_current)
  then have "set_current ?c' (set_current ?c ?mc) = set_current ?c (set_current ?c ?mc)"
    unfolding set_current_def [of ?c' "set_current ?c ?mc"] set_current_def [of ?c "set_current ?c ?mc"]
    by (rule foldl_set_labeled_permuted [OF assms(5) assms(4) assms(6)])
  then have c: "set_current ?c' (set_current ?c ?mc) = set_current ?c ?mc"
    by (simp add: set_current_idem)
  have "fst ` set ?t' \<subseteq> fst ` set (set_total ?t ?mt)"
    using assms(9) by (simp add: keys_set_total)
  then have "set_total ?t' (set_total ?t ?mt) = set_total ?t (set_total ?t ?mt)"
    unfolding set_total_def [of ?t' "set_total ?t ?mt"] set_total_def [of ?t "set_total ?t ?mt"]
    by (rule foldl_set_labeled_permuted [OF assms(8) assms(7) assms(9)])
  then have t: "set_total ?t' (set_total ?t ?mt) = set_total ?t ?mt"
    by (simp add: set_total_idem)
  show ?thesis
    by (simp add: set_metrics_def Set_Set assms(1-3) c t)
qed

section \<open>The claims\<close>

text \<open>
  Claim C1, amended. Two successful scrapes follow each other, the first on the payload
  \<open>d1\<close>, the second on \<open>d2\<close>, and the status codes of their \<open>status_code_count\<close>
  are disjoint. Then every code \<open>k\<close> of the first that is not in the second has a
  current-count gauge that reads 0 after the second scrape. When \<open>k\<close> is in the first
  scrape's \<open>total_status_code_count\<close> and not in the second's, its cumulative-count gauge
  exists and is after the second scrape what it was after the first. The condition on the
  second payload's totals is needed: the totals are set from whatever the payload holds.
\<close>

theorem disappearing_codes:
  assumes "scrape decode (Response code1 body1) s = (None, s1)" and "decode body1 = Inr d1"
    and "scrape decode (Response code2 body2) s1 = (None, s2)" and "decode body2 = Inr d2"
    and "fst ` set (StatusCodeCount d1) \<inter> fst ` set (StatusCodeCount d2) = {}"
    and "k \<in> fst ` set (StatusCodeCount d1) - fst ` set (StatusCodeCount d2)"
  shows "map_option val (map_of (metric_request_status_count_current s2) k) = Some 0
    \<and> (k \<in> fst ` set (TotalStatusCodeCount d1) \<and> k \<notin> fst ` set (TotalStatusCodeCount d2) \<longrightarrow>
         k \<in> fst ` set (metric_request_status_count_total s1)
         \<and> map_of (metric_request_status_count_total s2) k
           = map_of (metric_request_status_count_total s1) k)"
proof -
  from assms(1,2) have s1: "s1 = set_metrics d1 s"
    by (auto elim!: scrape_NoneD)
  from assms(3,4) have s2: "s2 = set_metrics d2 s1"
    by (auto elim!: scrape_NoneD)
  from assms(6) have k1: "k \<in> fst ` set (StatusCodeCount d1)"
    and k2: "k \<notin> fst ` set (StatusCodeCount d2)" by auto
  have "k \<in> fst ` set (metric_request_status_count_current s1)"
    using k1 by (simp add: s1 set_metrics_def keys_set_current)
  then have cur: "map_option val (map_of (metric_request_status_count_current s2) k) = Some 0"
    using k2 by (simp add: s2 set_metrics_def current_absent_zero)
  have tot1: "map_of (metric_request_status_count_total s2) k
           = map_of (metric_request_status_count_total s1) k"
    if "k \<notin> fst ` set (TotalStatusCodeCount d2)"
    using that by (simp add: s2 set_metrics_def total_absent_kept)
  have tot2: "k \<in> fst ` set (metric_request_status_count_total s1)"
    if "k \<in> fst ` set (TotalStatusCodeCount d1)"
    using that by (simp add: s1 set_metrics_def keys_set_total)
  show ?thesis
    by (intro conjI impI) (simp_all add: cur tot1 tot2)
qed

text \<open>
  An instance: \<open>payload_a\<close>, then \<open>payload_d\<close>, and the code 200.
\<close>

theorem disappearing_codes_witness:
  "scrape example_decode (Response 200 ''a'') init_state
     = (None, set_metrics payload_a init_state)
   \<and> example_decode ''a'' = Inr payload_a
   \<and> scrape example_decode (Response 200 ''d'') (set_metrics payload_a init_state)
     = (None, set_metrics payload_d (set_metrics payload_a init_state))
   \<and> example_decode ''d'' = Inr payload_d
   \<and> fst ` set (StatusCodeCount payload_a) \<inter> fst ` set (StatusCodeCount payload_d) = {}
   \<and> ''200'' \<in> fst ` set (StatusCodeCount payload_a) - fst ` set (StatusCodeCount payload_d)
   \<and> ''200'' \<in> fst ` set (TotalStatusCodeCount payload_a)
   \<and> ''200'' \<notin> fst ` set (TotalStatusCodeCount payload_d)
   \<and> map_option val (map_of (metric_request_status_count_current
         (set_metrics payload_d (set_metrics payload_a init_state))) ''200'') = Some 0
   \<and> ''200'' \<in> fst ` set (metric_request_status_count_total (set_metrics payload_a init_state))
   \<and> map_of (metric_request_status_count_total
         (set_metrics payload_d (set_metrics payload_a init_state))) ''200''
     = map_of (metric_request_status_count_total (set_metrics payload_a init_state)) ''200''"
proof -
  have h1: "scrape example_decode (Response 200 ''a'') init_state
      = (None, set_metrics payload_a init_state)"
    by (simp add: scrape_def example_decode_def)
  have h2: "example_decode ''a'' = Inr payload_a"
    by (simp add: example_decode_def)
  have h3: "scrape example_decode (Response 200 ''d'') (set_metrics payload_a init_state)
      = (None, set_metrics payload_d (set_metrics payload_a init_state))"
    by (simp add: scrape_def example_decode_def)
  have h4: "example_decode ''d'' = Inr payload_d"
    by (simp add: example_decode_def)
  have h5: "fst ` set (StatusCodeCount payload_a) \<inter> fst ` set (StatusCodeCount payload_d) = {}"
    by (simp add: payload_a_def payload_d_def)
  have h6: "''200'' \<in> fst ` set (StatusCodeCount payload_a) - fst ` set (StatusCodeCount payload_d)"
    by (simp add: payload_a_def payload_d_def)
  have h7: "''200'' \<in> fst ` set (TotalStatusCodeCount payload_a)"
    by (simp add: payload_a_def)
  have h8: "''200'' \<notin> fst ` set (TotalStatusCodeCount payload_d)"
    by (simp add: payload_d_def)
  note c = disappearing_codes [OF h1 h2 h3 h4 h5 h6]
  note c1 = c [THEN conjunct1]
  note c2 = c [THEN conjunct2, THEN mp, OF conjI, OF h7 h8]
  show ?thesis
    by (intro conjI h1 h2 h3 h4 h5 h6 h7 h8 c1 c2 [THEN conjunct1] c2 [THEN conjunct2])
qed

text \<open>
  Claim C1 as it is stated fails: \<open>payload_a\<close> and \<open>payload_c\<close> have disjoint
  current codes, 200 is in the first and has a total of 1000 there, and the second payload
  still reports a total for 200, so the cumulative-count gauge moves from 1000 to 1010.
\<close>

theorem cumulative_changes_counterexample:
  "scrape example_decode (Response 200 ''a'') init_state
     = (None, set_metrics payload_a init_state)
   \<and> scrape example_decode (Response 200 ''c'') (set_metrics payload_a init_state)
     = (None, set_metrics payload_c (set_metrics payload_a init_state))
   \<and> fst ` set (StatusCodeCount payload_a) \<inter> fst ` set (StatusCodeCount payload_c) = {}
   \<and> ''200'' \<in> fst ` set (StatusCodeCount payload_a) - fst ` set (StatusCodeCount payload_c)
   \<and> ''200'' \<in> fst ` set (TotalStatusCodeCount payload_a)
   \<and> map_option val (map_of (metric_request_status_count_total
         (set_metrics payload_a init_state)) ''200'') = Some 1000
   \<and> map_option val (map_of (metric_request_status_count_total
         (set_metrics payload_c (set_metrics payload_a init_state))) ''200'') = Some 1010
   \<and> map_of (metric_request_status_count_total
         (set_metrics payload_c (set_metrics payload_a init_state))) ''200''
     \<noteq> map_of (metric_request_status_count_total (set_metrics payload_a init_state)) ''200''"
  by (simp add: model_defs example_defs)

text \<open>
  Claim C2. After a scrape that succeeds on a body decoded as \<open>d\<close>, the flag
  \<open>nomad_up\<close> reads 1 and the three other unlabeled gauges hold the three fields of
  \<open>d\<close>, as they were decoded.
\<close>

theorem scrape_sets_singletons:
  assumes "scrape decode (Response code body) s = (None, s')" and "decode body = Inr d"
  shows "val (nomad_up s') = 1 \<and> val (metric_uptime s') = UpTimeSec d
    \<and> val (metric_request_response_time_total s') = TotalResponseTimeSec d
    \<and> val (metric_request_response_time_avg s') = AverageResponseTimeSec d"
proof -
  from assms have "s' = set_metrics d s"
    by (auto elim!: scrape_NoneD)
  then show ?thesis
    by (simp add: set_metrics_def val_Set)
qed

text \<open>
  An instance: the first scrape of the process, on \<open>payload_a\<close>.
\<close>

theorem scrape_sets_singletons_witness:
  "scrape example_decode (Response 200 ''a'') init_state = (None, set_metrics payload_a init_state)
   \<and> example_decode ''a'' = Inr payload_a
   \<and> val (nomad_up (set_metrics payload_a init_state)) = 1
   \<and> val (metric_uptime (set_metrics payload_a init_state)) = 120.5
   \<and> val (metric_request_response_time_total (set_metrics payload_a init_state)) = 50
   \<and> val (metric_request_response_time_avg (set_metrics payload_a init_state)) = 0.05"
proof -
  have h1: "scrape example_decode (Response 200 ''a'') init_state
            = (None, set_metrics payload_a init_state)"
    by (simp add: scrape_def example_decode_def)
  have h2: "example_decode ''a'' = Inr payload_a"
    by (simp add: example_decode_def)
  show ?thesis
    using h1 h2 scrape_sets_singletons [OF h1 h2] by (simp add: payload_a_def)
qed

text \<open>
  Claim C3. When \<open>scrape\<close> fails, whatever the error, \<open>Collect\<close> sends one metric,
  \<open>nomad_up\<close> holding 0, and the state differs from the one before the call in
  \<open>nomad_up\<close> only: the other gauges and both maps are as they were. When \<open>scrape\<close>
  succeeds, the state is the one \<open>scrape\<close> left, \<open>nomad_up\<close> reads 1, and the metrics
  sent are the four unlabeled gauges followed by every gauge of both maps.
\<close>

theorem Collect_failure_and_success:
  "(fst (scrape decode resp s) \<noteq> None \<longrightarrow>
      Exporter_Collect decode resp s = ([Set (nomad_up s) 0], s\<lparr>nomad_up := Set (nomad_up s) 0\<rparr>)
      \<and> val (Set (nomad_up s) 0) = 0)
   \<and> (fst (scrape decode resp s) = None \<longrightarrow>
      snd (Exporter_Collect decode resp s) = snd (scrape decode resp s)
      \<and> val (nomad_up (snd (Exporter_Collect decode resp s))) = 1
      \<and> fst (Exporter_Collect decode resp s) =
          [nomad_up (snd (Exporter_Collect decode resp s)),
           metric_uptime (snd (Exporter_Collect decode resp s)),
           metric_request_response_time_total (snd (Exporter_Collect decode resp s)),
           metric_request_response_time_avg (snd (Exporter_Collect decode resp s))]
          @ map snd (metric_request_status_count_current (snd (Exporter_Collect decode resp s)))
          @ map snd (metric_request_status_count_total (snd (Exporter_Collect decode resp s))))"
  by (simp add: Collect_error Collect_ok_state Collect_ok_emitted scrape_ok_up val_Set Let_def)

text \<open>
  An instance of each half: a 503 after a scrape of \<open>payload_a\<close>, and the first scrape of
  \<open>payload_a\<close>, which sends seven metrics.
\<close>

theorem Collect_failure_and_success_witness:
  "fst (scrape example_decode (Response 503 ''a'') (set_metrics payload_a init_state)) \<noteq> None
   \<and> Exporter_Collect example_decode (Response 503 ''a'') (set_metrics payload_a init_state)
     = ([Set (nomad_up (set_metrics payload_a init_state)) 0],
        (set_metrics payload_a init_state)
          \<lparr>nomad_up := Set (nomad_up (set_metrics payload_a init_state)) 0\<rparr>)
   \<and> fst (scrape example_decode (Response 200 ''a'') init_state) = None
   \<and> val (nomad_up (snd (Exporter_Collect example_decode (Response 200 ''a'') init_state))) = 1
   \<and> length (fst (Exporter_Collect example_decode (Response 200 ''a'') init_state)) = 7"
proof -
  have h1: "fst (scrape example_decode (Response 503 ''a'') (set_metrics payload_a init_state))
      \<noteq> None"
    by (simp add: scrape_def)
  have h2: "fst (scrape example_decode (Response 200 ''a'') init_state) = None"
    by (simp add: scrape_def example_decode_def)
  have h3: "snd (scrape example_decode (Response 200 ''a'') init_state)
      = set_metrics payload_a init_state"
    by (simp add: scrape_def example_decode_def)
  have h4: "length (metric_request_status_count_current (set_metrics payload_a init_state)) = 2"
    by (simp add: model_defs example_defs)
  have h5: "length (metric_request_status_count_total (set_metrics payload_a init_state)) = 1"
    by (simp add: model_defs example_defs)
  note f = Collect_failure_and_success
    [of example_decode "Response 503 ''a''" "set_metrics payload_a init_state",
      THEN conjunct1, THEN mp, OF h1]
  note g = Collect_failure_and_success [of example_decode "Response 200 ''a''" init_state,
      THEN conjunct2, THEN mp, OF h2]
  note g1 = g [THEN conjunct1]
  note g2 = g [THEN conjunct2, THEN conjunct1]
  note g3 = g [THEN conjunct2, THEN conjunct2]
  have l: "length (fst (Exporter_Collect example_decode (Response 200 ''a'') init_state)) = 7"
    by (simp add: g3 g1 h3 h4 h5)
  show ?thesis
    by (intro conjI h1 f [THEN conjunct1] h2 g2 l)
qed

text \<open>
  Claim C4. \<open>scrape\<close> returns an error exactly when the GET fails, or the status code is
  not one of 200 to 299, or the body does not decode. The checks come in this order: a failed
  GET is a \<open>Transport\<close> error; a status outside 200 to 299 is a \<open>BadStatus\<close> error
  whatever the body is; a \<open>Decode\<close> error needs a status inside the range. With a status
  inside the range and a body that decodes, \<open>scrape\<close> succeeds. A scrape that returns an
  error has written nothing: the state is the one it started from.
\<close>

theorem scrape_error_cases:
  "(fst (scrape decode resp s) \<noteq> None) =
     (case resp of
        GetErr err \<Rightarrow> True
      | Response code body \<Rightarrow> \<not> (200 \<le> code \<and> code \<le> 299) \<or> isl (decode body))
   \<and> scrape decode (GetErr err) s = (Some (Transport err), s)
   \<and> (\<not> (200 \<le> code \<and> code \<le> 299) \<longrightarrow>
        scrape decode (Response code body) s = (Some (BadStatus code), s))
   \<and> (200 \<le> code \<and> code \<le> 299 \<and> decode body = Inl e \<longrightarrow>
        scrape decode (Response code body) s = (Some (Decode e), s))
   \<and> (200 \<le> code \<and> code \<le> 299 \<and> decode body = Inr d \<longrightarrow>
        scrape decode (Response code body) s = (None, set_metrics d s))
   \<and> (fst (scrape decode resp s) \<noteq> None \<longrightarrow> snd (scrape decode resp s) = s)"
  by (auto simp: scrape_def split: get_result.splits sum.splits)

text \<open>
  Instances: a refused connection, the statuses 503 and 300, an undecodable body with the
  status 299, and a success.
\<close>

theorem scrape_error_cases_witness:
  "scrape example_decode (GetErr ''connection refused'') init_state
     = (Some (Transport ''connection refused''), init_state)
   \<and> scrape example_decode (Response 503 ''x'') init_state = (Some (BadStatus 503), init_state)
   \<and> scrape example_decode (Response 299 ''x'') init_state
     = (Some (Decode ''invalid character''), init_state)
   \<and> scrape example_decode (Response 200 ''a'') init_state
     = (None, set_metrics payload_a init_state)
   \<and> scrape example_decode (Response 300 ''a'') init_state = (Some (BadStatus 300), init_state)"
proof -
  have h1: "\<not> (200 \<le> (503::int) \<and> (503::int) \<le> 299)" by simp
  have h2: "200 \<le> (299::int) \<and> (299::int) \<le> 299 \<and> example_decode ''x'' = Inl ''invalid character''"
    by (simp add: example_decode_def)
  have h3: "200 \<le> (200::int) \<and> (200::int) \<le> 299 \<and> example_decode ''a'' = Inr payload_a"
    by (simp add: example_decode_def)
  have h4: "\<not> (200 \<le> (300::int) \<and> (300::int) \<le> 299)" by simp
  from scrape_error_cases
      [of example_decode "GetErr ''connection refused''" init_state "''connection refused''"
        503 "''x''" "''invalid character''" payload_a]
    scrape_error_cases
      [of example_decode "GetErr ''connection refused''" init_state "''connection refused''"
        299 "''x''" "''invalid character''" payload_a]
    scrape_error_cases
      [of example_decode "GetErr ''connection refused''" init_state "''connection refused''"
        200 "''a''" "''invalid character''" payload_a]
    scrape_error_cases
      [of example_decode "GetErr ''connection refused''" init_state "''connection refused''"
        300 "''a''" "''invalid character''" payload_a]
    h1 h2 h3 h4
  show ?thesis by simp
qed

text \<open>
  Claim C5. \<open>nomad_up\<close> reads 0 in the initial state. A scrape that succeeds leaves it
  at 1, and a \<open>Collect\<close> whose scrape fails leaves it at 0. After any sequence of polls,
  from any state, the flag is decided by the last poll alone: 1 when its scrape succeeded, 0
  when it failed.
\<close>

theorem up_flag_state_machine:
  "val (nomad_up init_state) = 0
   \<and> (fst (scrape decode resp s) = None \<longrightarrow> val (nomad_up (snd (scrape decode resp s))) = 1)
   \<and> (fst (scrape decode resp s) \<noteq> None \<longrightarrow>
        val (nomad_up (snd (Exporter_Collect decode resp s))) = 0)
   \<and> val (nomad_up (run (ps @ [(decode, resp)]) s0)) =
        (if fst (scrape decode resp (run ps s0)) = None then 1 else 0)"
  by (simp add: run_snoc Collect_up scrape_ok_up init_state_def val_Set)

text \<open>
  An instance: a successful poll, then a 503.
\<close>

theorem up_flag_state_machine_witness:
  "val (nomad_up init_state) = 0
   \<and> fst (scrape example_decode (Response 200 ''a'') init_state) = None
   \<and> val (nomad_up (snd (scrape example_decode (Response 200 ''a'') init_state))) = 1
   \<and> val (nomad_up (run [(example_decode, Response 200 ''a'')] init_state)) = 1
   \<and> fst (scrape example_decode (Response 503 ''a'')
        (run [(example_decode, Response 200 ''a'')] init_state)) \<noteq> None
   \<and> val (nomad_up (run [(example_decode, Response 200 ''a''),
        (example_decode, Response 503 ''a'')] init_state)) = 0"
proof -
  have h1: "fst (scrape example_decode (Response 200 ''a'') init_state) = None"
    by (simp add: scrape_def example_decode_def)
  have h2: "fst (scrape example_decode (Response 503 ''a'')
      (run [(example_decode, Response 200 ''a'')] init_state)) \<noteq> None"
    by (simp add: scrape_def)
  from up_flag_state_machine [of example_decode "Response 200 ''a''" init_state "[]" init_state]
    up_flag_state_machine [of example_decode "Response 503 ''a''"
      "run [(example_decode, Response 200 ''a'')] init_state"
      "[(example_decode, Response 200 ''a'')]" init_state]
    h1 h2
  show ?thesis by (simp add: run_Nil)
qed

text \<open>
  Claim C6. A scrape that succeeds on a response, run again on the same response, succeeds
  and leaves the state it found: every gauge, the labeled ones of both maps included, holds
  what it held after the first scrape. This is so from every starting state.
\<close>

theorem scrape_idempotent:
  assumes "scrape decode resp s = (None, s1)"
  shows "scrape decode resp s1 = (None, s1)"
proof -
  from assms obtain code body d where r: "resp = Response code body" "200 \<le> code" "code < 300"
    "decode body = Inr d" and s1: "s1 = set_metrics d s"
    by (rule scrape_NoneD)
  have "set_metrics d (set_metrics d s) = set_metrics d s"
    by (simp add: set_metrics_def Set_Set set_current_idem set_total_idem)
  with r s1 show ?thesis
    by (simp add: scrape_def)
qed

text \<open>
  An instance: \<open>payload_b\<close> scraped twice after \<open>payload_a\<close>.
\<close>

theorem scrape_idempotent_witness:
  "scrape example_decode (Response 200 ''b'') (set_metrics payload_a init_state)
     = (None, set_metrics payload_b (set_metrics payload_a init_state))
   \<and> scrape example_decode (Response 200 ''b'')
       (set_metrics payload_b (set_metrics payload_a init_state))
     = (None, set_metrics payload_b (set_metrics payload_a init_state))"
proof -
  have h: "scrape example_decode (Response 200 ''b'') (set_metrics payload_a init_state)
     = (None, set_metrics payload_b (set_metrics payload_a init_state))"
    by (simp add: scrape_def example_decode_def)
  show ?thesis
    by (intro conjI h scrape_idempotent [OF h])
qed

text \<open>
  Claim C7, amended. Over any sequence of polls, from any state, every status code that has
  an entry in one of the two maps still has one at the end. After a successful scrape, a
  code that had a current-count gauge and is absent from the payload's
  \<open>status_code_count\<close> reads 0; a code that is absent from the payload's
  \<open>total_status_code_count\<close> keeps its cumulative-count gauge as it was, value included,
  rather than reading 0.
\<close>

theorem entries_never_removed:
  "fst ` set (metric_request_status_count_current s)
     \<subseteq> fst ` set (metric_request_status_count_current (run ps s))
   \<and> fst ` set (metric_request_status_count_total s)
     \<subseteq> fst ` set (metric_request_status_count_total (run ps s))
   \<and> (scrape decode (Response code body) s = (None, s') \<and> decode body = Inr d \<longrightarrow>
       (k \<in> fst ` set (metric_request_status_count_current s)
          \<and> k \<notin> fst ` set (StatusCodeCount d) \<longrightarrow>
        map_option val (map_of (metric_request_status_count_current s') k) = Some 0)
       \<and> (k \<in> fst ` set (metric_request_status_count_total s)
          \<and> k \<notin> fst ` set (TotalStatusCodeCount d) \<longrightarrow>
        map_of (metric_request_status_count_total s') k
          = map_of (metric_request_status_count_total s) k))"
proof -
  have cur: "map_option val (map_of (metric_request_status_count_current s') k) = Some 0"
    if "scrape decode (Response code body) s = (None, s')" and "decode body = Inr d"
      and "k \<in> fst ` set (metric_request_status_count_current s)"
      and "k \<notin> fst ` set (StatusCodeCount d)"
  proof -
    from that(1,2) have "s' = set_metrics d s"
      by (auto elim!: scrape_NoneD)
    with that(3,4) show ?thesis
      by (simp add: set_metrics_def current_absent_zero)
  qed
  have tot: "map_of (metric_request_status_count_total s') k
          = map_of (metric_request_status_count_total s) k"
    if "scrape decode (Response code body) s = (None, s')" and "decode body = Inr d"
      and "k \<notin> fst ` set (TotalStatusCodeCount d)"
  proof -
    from that(1,2) have "s' = set_metrics d s"
      by (auto elim!: scrape_NoneD)
    with that(3) show ?thesis
      by (simp add: set_metrics_def total_absent_kept)
  qed
  show ?thesis
    by (intro conjI impI)
      (simp_all add: cur tot keys_run [of s ps, THEN conjunct1] keys_run [of s ps, THEN conjunct2])
qed

text \<open>
  An instance: from the state after \<open>payload_a\<close>, a 503 and then \<open>payload_b\<close>; the
  code 500 for the current counts, the code 200 for the totals.
\<close>

theorem entries_never_removed_witness:
  "fst ` set (metric_request_status_count_current (set_metrics payload_a init_state))
     \<subseteq> fst ` set (metric_request_status_count_current
         (run [(example_decode, Response 503 ''a''), (example_decode, Response 200 ''b'')]
           (set_metrics payload_a init_state)))
   \<and> scrape example_decode (Response 200 ''b'') (set_metrics payload_a init_state)
     = (None, set_metrics payload_b (set_metrics payload_a init_state))
   \<and> example_decode ''b'' = Inr payload_b
   \<and> ''500'' \<in> fst ` set (metric_request_status_count_current (set_metrics payload_a init_state))
   \<and> ''500'' \<notin> fst ` set (StatusCodeCount payload_b)
   \<and> map_option val (map_of (metric_request_status_count_current
         (set_metrics payload_b (set_metrics payload_a init_state))) ''500'') = Some 0
   \<and> ''200'' \<in> fst ` set (metric_request_status_count_total (set_metrics payload_a init_state))
   \<and> ''200'' \<notin> fst ` set (TotalStatusCodeCount payload_b)
   \<and> map_of (metric_request_status_count_total
         (set_metrics payload_b (set_metrics payload_a init_state))) ''200''
     = map_of (metric_request_status_count_total (set_metrics payload_a init_state)) ''200''"
proof -
  let ?ps = "[(example_decode, Response 503 ''a''), (example_decode, Response 200 ''b'')]"
  let ?s = "set_metrics payload_a init_state"
  have h1: "scrape example_decode (Response 200 ''b'') ?s = (None, set_metrics payload_b ?s)"
    by (simp add: scrape_def example_decode_def)
  have h2: "example_decode ''b'' = Inr payload_b"
    by (simp add: example_decode_def)
  have h3: "''500'' \<in> fst ` set (metric_request_status_count_current ?s)"
    by (simp add: model_defs example_defs)
  have h4: "''500'' \<notin> fst ` set (StatusCodeCount payload_b)"
    by (simp add: payload_b_def)
  have h5: "''200'' \<in> fst ` set (metric_request_status_count_total ?s)"
    by (simp add: model_defs example_defs)
  have h6: "''200'' \<notin> fst ` set (TotalStatusCodeCount payload_b)"
    by (simp add: payload_b_def)
  note a = entries_never_removed
    [of ?s ?ps example_decode 200 "''b''" "set_metrics payload_b ?s" payload_b "''500''"]
  note b = entries_never_removed
    [of ?s ?ps example_decode 200 "''b''" "set_metrics payload_b ?s" payload_b "''200''"]
  note a1 = a [THEN conjunct1]
  note a3 = a [THEN conjunct2, THEN conjunct2, THEN mp, OF conjI, OF h1 h2, THEN conjunct1,
    THEN mp, OF conjI, OF h3 h4]
  note b3 = b [THEN conjunct2, THEN conjunct2, THEN mp, OF conjI, OF h1 h2, THEN conjunct2,
    THEN mp, OF conjI, OF h5 h6]
  show ?thesis
    by (intro conjI a1 h1 h2 h3 h4 a3 h5 h6 b3)
qed

text \<open>
  Claim C7 as it is stated fails for the cumulative counts: \<open>payload_b\<close> has no total for
  200, and after it is scraped the cumulative-count gauge of 200 still reads 1000, not 0.
\<close>

theorem total_not_zero_counterexample:
  "scrape example_decode (Response 200 ''b'') (run [(example_decode, Response 200 ''a'')] init_state)
     = (None, set_metrics payload_b (set_metrics payload_a init_state))
   \<and> ''200'' \<in> fst ` set (metric_request_status_count_total (set_metrics payload_a init_state))
   \<and> ''200'' \<notin> fst ` set (TotalStatusCodeCount payload_b)
   \<and> map_option val (map_of (metric_request_status_count_total
         (set_metrics payload_b (set_metrics payload_a init_state))) ''200'') = Some 1000
   \<and> map_option val (map_of (metric_request_status_count_total
         (set_metrics payload_b (set_metrics payload_a init_state))) ''200'') \<noteq> Some 0"
  by (simp add: model_defs example_defs)

text \<open>
  Claim C9. In every state the process can reach, the initial one and the one after any
  sequence of polls, \<open>nomad_up\<close> reads 0 or 1.
\<close>

theorem up_flag_zero_or_one:
  "val (nomad_up (run ps init_state)) = 0 \<or> val (nomad_up (run ps init_state)) = 1"
proof (cases ps rule: rev_cases)
  case Nil
  then show ?thesis by (simp add: run_Nil init_state_def val_Set)
next
  case (snoc qs p)
  obtain decode resp where p: "p = (decode, resp)" by (cases p)
  show ?thesis by (simp add: snoc p run_snoc Collect_up)
qed

text \<open>
  An instance: a successful poll, then a failed GET.
\<close>

theorem up_flag_zero_or_one_witness:
  "val (nomad_up (run [(example_decode, Response 200 ''a''), (example_decode, GetErr ''timeout'')]
      init_state)) = 0
   \<or> val (nomad_up (run [(example_decode, Response 200 ''a''), (example_decode, GetErr ''timeout'')]
      init_state)) = 1"
  by (rule up_flag_zero_or_one)

text \<open>
  Claim C10. In every state the process can reach, a gauge of the current-count map and a
  gauge of the cumulative-count map have the same namespace, the same help string
  \<open>Number of request handled by Nomad\<close> and the one label \<open>statusCode\<close>, whose
  value is the status code they are stored under; they differ in their names,
  \<open>request_count_current\<close> and \<open>request_count_total\<close>.
\<close>

theorem labeled_gauges_share_help:
  "(map_of (metric_request_status_count_current (run ps init_state)) k = Some g \<longrightarrow>
      Namespace g = ''nomad'' \<and> Name g = ''request_count_current''
      \<and> Help g = ''Number of request handled by Nomad'' \<and> ConstLabels g = [(''statusCode'', k)])
   \<and> (map_of (metric_request_status_count_total (run ps init_state)) k = Some h \<longrightarrow>
      Namespace h = ''nomad'' \<and> Name h = ''request_count_total''
      \<and> Help h = ''Number of request handled by Nomad'' \<and> ConstLabels h = [(''statusCode'', k)])"
  using desc_run [of ps] by simp

text \<open>
  An instance: the two gauges of the code 200 after \<open>payload_a\<close>.
\<close>

theorem labeled_gauges_share_help_witness:
  "map_of (metric_request_status_count_current
      (run [(example_decode, Response 200 ''a'')] init_state)) ''200''
     = Some \<lparr>Namespace = ''nomad'', Name = ''request_count_current'',
             Help = ''Number of request handled by Nomad'',
             ConstLabels = [(''statusCode'', ''200'')], val = 10\<rparr>
   \<and> map_of (metric_request_status_count_total
      (run [(example_decode, Response 200 ''a'')] init_state)) ''200''
     = Some \<lparr>Namespace = ''nomad'', Name = ''request_count_total'',
             Help = ''Number of request handled by Nomad'',
             ConstLabels = [(''statusCode'', ''200'')], val = 1000\<rparr>"
proof -
  let ?g = "\<lparr>Namespace = ''nomad'', Name = ''request_count_current'',
             Help = ''Number of request handled by Nomad'',
             ConstLabels = [(''statusCode'', ''200'')], val = 10\<rparr>"
  let ?h = "\<lparr>Namespace = ''nomad'', Name = ''request_count_total'',
             Help = ''Number of request handled by Nomad'',
             ConstLabels = [(''statusCode'', ''200'')], val = 1000\<rparr>"
  have h1: "map_of (metric_request_status_count_current
      (run [(example_decode, Response 200 ''a'')] init_state)) ''200'' = Some ?g"
    by (simp add: model_defs example_defs)
  have h2: "map_of (metric_request_status_count_total
      (run [(example_decode, Response 200 ''a'')] init_state)) ''200'' = Some ?h"
    by (simp add: model_defs example_defs)
  from labeled_gauges_share_help [of "[(example_decode, Response 200 ''a'')]" "''200''" ?g ?h]
    h1 h2
  show ?thesis by simp
qed

end
